theory Spec2Isabelle
  imports Complex_Main
begin


section \<open>Texts\<close>

text \<open>
  A Python \<open>str\<close> is a sequence of Unicode code points, so a text is a list of code
  points. The Unicode tables behind \<open>str.isspace\<close> (used by \<open>split\<close>, \<open>strip\<close> and
  the regular expression class \<open>\s\<close>) and behind the class \<open>\w\<close> belong to the Python
  runtime; the functions below take them as the parameters \<open>isspace\<close> and \<open>isword\<close>.
  Floats are idealised as real numbers.
\<close>

type_synonym str = "nat list"

definition SPACE :: str where
  "SPACE = [32]"

text \<open>\<open>sep.join(xs)\<close>\<close>

fun py_join :: "str \<Rightarrow> str list \<Rightarrow> str" where
  "py_join sep [] = []"
| "py_join sep [x] = x"
| "py_join sep (x # y # ys) = x @ sep @ py_join sep (y # ys)"

text \<open>\<open>s.strip()\<close>\<close>

definition py_strip :: "(nat \<Rightarrow> bool) \<Rightarrow> str \<Rightarrow> str" where
  "py_strip isspace s = rev (dropWhile isspace (rev (dropWhile isspace s)))"

text \<open>\<open>s.split()\<close>: the maximal runs of characters that are not whitespace.\<close>

fun split_from :: "(nat \<Rightarrow> bool) \<Rightarrow> str \<Rightarrow> str \<Rightarrow> str list" where
  "split_from isspace cur [] = (if cur = [] then [] else [cur])"
| "split_from isspace cur (c # cs) =
     (if isspace c
      then (if cur = [] then split_from isspace [] cs else cur # split_from isspace [] cs)
      else split_from isspace (cur @ [c]) cs)"

definition py_split :: "(nat \<Rightarrow> bool) \<Rightarrow> str \<Rightarrow> str list" where
  "py_split isspace s = split_from isspace [] s"


section \<open>Data model\<close>

text \<open>
  The classes of \<open>munajjam.models\<close>, with the fields the alignment code reads and writes.
\<close>

record Segment =
  seg_start :: real
  seg_end :: real
  seg_text :: str

record Ayah =
  ayah_number :: int
  ayah_text :: str

record AlignmentResult =
  ayah :: Ayah
  start_time :: real
  end_time :: real
  transcribed_text :: str
  similarity_score :: real
  overlap_detected :: bool

record HybridStats =
  total_ayahs :: int
  dp_kept :: int
  old_fallback :: int
  split_improved :: int
  still_low :: int

text \<open>Silences in milliseconds: \<open>list[tuple[int, int]] | None\<close>.\<close>

type_synonym silences_ms = "(int \<times> int) list option"

text \<open>
  The aligners of \<open>aligner_greedy\<close> and \<open>dp_core\<close> and the scorer of \<open>matcher\<close> are
  collaborators of the functions below and are passed as parameters.
\<close>

type_synonym scorer = "str \<Rightarrow> str \<Rightarrow> real"

type_synonym aligner_fn = "Segment list \<Rightarrow> Ayah list \<Rightarrow> silences_ms \<Rightarrow> AlignmentResult list"


section \<open>Hybrid alignment (\<open>core/hybrid.py\<close>)\<close>

definition find_silences_in_range ::
  "(real \<times> real) list \<Rightarrow> real \<Rightarrow> real \<Rightarrow> real \<Rightarrow> (real \<times> real) list" where
  "find_silences_in_range silences_sec start_t end_t min_duration =
     concat (map (\<lambda>(sil_start, sil_end).
       if sil_end > start_t \<and> sil_start < end_t
       then (let clipped_start = max sil_start start_t;
                 clipped_end = min sil_end end_t;
                 duration = clipped_end - clipped_start
             in if duration \<ge> min_duration then [(clipped_start, clipped_end)] else [])
       else []) silences_sec)"

text \<open>
  The loop of \<open>_split_segments_at_silences\<close> over the segments of the range; the state is
  \<open>(chunks, current_chunk, silence_idx)\<close>.
\<close>

fun split_loop ::
  "(real \<times> real) list \<Rightarrow> Segment list \<Rightarrow> Segment list list \<times> Segment list \<times> nat
     \<Rightarrow> Segment list list \<times> Segment list \<times> nat" where
  "split_loop silences [] st = st"
| "split_loop silences (seg # segs) (chunks, current_chunk, silence_idx) =
     (if silence_idx < length silences
      then (let (sil_start, sil_end) = silences ! silence_idx
            in if seg_end seg \<le> sil_start
               then split_loop silences segs (chunks, current_chunk @ [seg], silence_idx)
               else if seg_start seg \<ge> sil_end
               then split_loop silences segs
                      ((if current_chunk \<noteq> [] then chunks @ [current_chunk] else chunks),
                       [seg], silence_idx + 1)
               else split_loop silences segs
                      (chunks @ [current_chunk @ [seg]], [], silence_idx + 1))
      else split_loop silences segs (chunks, current_chunk @ [seg], silence_idx))"

definition split_segments_at_silences ::
  "Segment list \<Rightarrow> (real \<times> real) list \<Rightarrow> real \<Rightarrow> real \<Rightarrow> Segment list list" where
  "split_segments_at_silences segments silences_sec start_t end_t =
     (let range_segments =
            filter (\<lambda>s. seg_start s \<ge> start_t - 0.5 \<and> seg_end s \<le> end_t + 0.5) segments
      in if range_segments = [] then []
         else (let silences = find_silences_in_range silences_sec start_t end_t 0.2
               in if silences = [] then [range_segments]
                  else (let silences = sort_key fst silences;
                            (chunks, current_chunk, silence_idx) =
                               split_loop silences range_segments ([], [], 0);
                            chunks = (if current_chunk \<noteq> [] then chunks @ [current_chunk]
                                      else chunks)
                        in if chunks \<noteq> [] then chunks else [range_segments])))"

text \<open>
  \<open>_try_split_and_restitch\<close>; \<open>None\<close> is Python's \<open>None\<close>. The returned result takes
  its ayah from the argument \<open>a\<close> and everything else but text and score from \<open>dp_result\<close>.
\<close>

definition try_split_and_restitch ::
  "(nat \<Rightarrow> bool) \<Rightarrow> scorer \<Rightarrow> Segment list \<Rightarrow> Ayah \<Rightarrow> AlignmentResult \<Rightarrow> silences_ms
     \<Rightarrow> AlignmentResult option" where
  "try_split_and_restitch isspace similarity segments a dp_result silences =
     (case silences of
        None \<Rightarrow> None
      | Some sil_ms \<Rightarrow>
          if sil_ms = [] then None
          else (let silences_sec = map (\<lambda>(s, e). (real_of_int s / 1000, real_of_int e / 1000)) sil_ms;
                    chunks = split_segments_at_silences segments silences_sec
                               (start_time dp_result) (end_time dp_result)
                in if length chunks \<le> 1 then None
                   else (let all_texts =
                               filter (\<lambda>chunk_text. py_strip isspace chunk_text \<noteq> [])
                                 (map (\<lambda>chunk. py_join SPACE (map seg_text chunk)) chunks)
                         in if all_texts = [] then None
                            else (let merged_text = py_join SPACE all_texts;
                                      new_sim = similarity merged_text (ayah_text a)
                                  in if new_sim > similarity_score dp_result + 0.05
                                     then Some \<lparr> ayah = a,
                                                 start_time = start_time dp_result,
                                                 end_time = end_time dp_result,
                                                 transcribed_text = merged_text,
                                                 similarity_score = new_sim,
                                                 overlap_detected = overlap_detected dp_result \<rparr>
                                     else None))))"

text \<open>The lookup \<open>old_by_ayah\<close>: a later greedy result overwrites an earlier one.\<close>

definition build_old_by_ayah :: "AlignmentResult list \<Rightarrow> (int \<rightharpoonup> AlignmentResult)" where
  "build_old_by_ayah old_results =
     fold (\<lambda>r m. m(ayah_number (ayah r) \<mapsto> r)) old_results Map.empty"

datatype best_source = Dp | Split | Old

definition is_long_ayah :: "(nat \<Rightarrow> bool) \<Rightarrow> int \<Rightarrow> real \<Rightarrow> AlignmentResult \<Rightarrow> bool" where
  "is_long_ayah isspace long_ayah_words long_ayah_duration dp_r =
     (let ayah_word_count = int (length (py_split isspace (ayah_text (ayah dp_r))));
          ayah_duration = end_time dp_r - start_time dp_r
      in ayah_word_count > long_ayah_words \<or> ayah_duration > long_ayah_duration)"

text \<open>The split candidate of a low DP result: tried for long ayahs only.\<close>

definition split_candidate ::
  "(nat \<Rightarrow> bool) \<Rightarrow> scorer \<Rightarrow> Segment list \<Rightarrow> silences_ms \<Rightarrow> int \<Rightarrow> real
     \<Rightarrow> AlignmentResult \<Rightarrow> AlignmentResult option" where
  "split_candidate isspace similarity segments silences long_ayah_words long_ayah_duration dp_r =
     (if is_long_ayah isspace long_ayah_words long_ayah_duration dp_r
      then try_split_and_restitch isspace similarity segments (ayah dp_r) dp_r silences
      else None)"

text \<open>
  The improvement attempts for a DP result below the threshold: \<open>best_result\<close> and
  \<open>best_source\<close> after "Try 1" and "Try 2". An \<open>AlignmentResult\<close> object is truthy.
\<close>

definition choose_best ::
  "(nat \<Rightarrow> bool) \<Rightarrow> scorer \<Rightarrow> Segment list \<Rightarrow> silences_ms \<Rightarrow> int \<Rightarrow> real
     \<Rightarrow> (int \<rightharpoonup> AlignmentResult) \<Rightarrow> AlignmentResult \<Rightarrow> AlignmentResult \<times> best_source" where
  "choose_best isspace similarity segments silences long_ayah_words long_ayah_duration
       old_by_ayah dp_r =
     (let (best_result, best_src) =
            (case split_candidate isspace similarity segments silences
                    long_ayah_words long_ayah_duration dp_r of
               Some split_result \<Rightarrow>
                 if similarity_score split_result > similarity_score dp_r
                 then (split_result, Split) else (dp_r, Dp)
             | None \<Rightarrow> (dp_r, Dp))
      in case old_by_ayah (ayah_number (ayah dp_r)) of
           Some old_r \<Rightarrow>
             if similarity_score old_r > similarity_score best_result
             then (old_r, Old) else (best_result, best_src)
         | None \<Rightarrow> (best_result, best_src))"

text \<open>One iteration of the loop over the DP results ("Step 3").\<close>

definition hybrid_step ::
  "(nat \<Rightarrow> bool) \<Rightarrow> scorer \<Rightarrow> Segment list \<Rightarrow> silences_ms \<Rightarrow> real \<Rightarrow> int \<Rightarrow> real
     \<Rightarrow> (int \<rightharpoonup> AlignmentResult) \<Rightarrow> AlignmentResult
     \<Rightarrow> AlignmentResult list \<times> HybridStats \<Rightarrow> AlignmentResult list \<times> HybridStats" where
  "hybrid_step isspace similarity segments silences quality_threshold long_ayah_words
       long_ayah_duration old_by_ayah dp_r st =
     (let (final_results, stats) = st
      in if similarity_score dp_r \<ge> quality_threshold
         then (final_results @ [dp_r], stats\<lparr>dp_kept := dp_kept stats + 1\<rparr>)
         else (let (best_result, best_src) =
                     choose_best isspace similarity segments silences long_ayah_words
                       long_ayah_duration old_by_ayah dp_r;
                   stats' =
                     (if best_src = Old then stats\<lparr>old_fallback := old_fallback stats + 1\<rparr>
                      else if best_src = Split
                      then stats\<lparr>split_improved := split_improved stats + 1\<rparr>
                      else if similarity_score best_result < quality_threshold
                      then stats\<lparr>still_low := still_low stats + 1\<rparr>
                      else stats\<lparr>dp_kept := dp_kept stats + 1\<rparr>)
               in (final_results @ [best_result], stats')))"

definition align_segments_hybrid ::
  "(nat \<Rightarrow> bool) \<Rightarrow> scorer \<Rightarrow> aligner_fn \<Rightarrow> aligner_fn
     \<Rightarrow> Segment list \<Rightarrow> Ayah list \<Rightarrow> silences_ms \<Rightarrow> real \<Rightarrow> int \<Rightarrow> real
     \<Rightarrow> AlignmentResult list \<times> HybridStats" where
  "align_segments_hybrid isspace similarity align_segments_dp_with_constraints
       align_segments_greedy segments ayahs silences quality_threshold long_ayah_words
       long_ayah_duration =
     (let stats = \<lparr> total_ayahs = int (length ayahs), dp_kept = 0, old_fallback = 0,
                     split_improved = 0, still_low = 0 \<rparr>
      in if segments = [] \<or> ayahs = [] then ([], stats)
         else (let dp_results = align_segments_dp_with_constraints segments ayahs silences
               in if dp_results = []
                  then (let old_results = align_segments_greedy segments ayahs silences
                        in (old_results, stats\<lparr>old_fallback := int (length old_results)\<rparr>))
                  else (let old_results = align_segments_greedy segments ayahs silences;
                            old_by_ayah = build_old_by_ayah old_results
                        in fold (hybrid_step isspace similarity segments silences
                                   quality_threshold long_ayah_words long_ayah_duration
                                   old_by_ayah)
                             dp_results ([], stats))))"

text \<open>
  The candidates for a DP result: the DP result itself, the split candidate when one is
  produced, and the greedy result stored under the same ayah number when there is one.
\<close>

definition candidates ::
  "(nat \<Rightarrow> bool) \<Rightarrow> scorer \<Rightarrow> Segment list \<Rightarrow> silences_ms \<Rightarrow> int \<Rightarrow> real
     \<Rightarrow> (int \<rightharpoonup> AlignmentResult) \<Rightarrow> AlignmentResult \<Rightarrow> AlignmentResult list" where
  "candidates isspace similarity segments silences long_ayah_words long_ayah_duration
       old_by_ayah dp_r =
     dp_r
     # (case split_candidate isspace similarity segments silences long_ayah_words
               long_ayah_duration dp_r of
          Some r \<Rightarrow> [r] | None \<Rightarrow> [])
     @ (case old_by_ayah (ayah_number (ayah dp_r)) of Some r \<Rightarrow> [r] | None \<Rightarrow> [])"


section \<open>The aligner facade (\<open>core/aligner.py\<close>)\<close>

datatype AlignmentStrategy = GREEDY | DP | HYBRID

record Aligner =
  strategy :: AlignmentStrategy
  quality_threshold :: real
  fix_drift :: bool
  fix_overlaps :: bool
  last_stats :: "HybridStats option"

text \<open>
  The error kind the specification names for bad input. \<open>Aligner.align\<close> has no
  \<open>raise\<close> statement of its own, so each of its branches below is a normal return
  (\<open>Inr\<close>).
\<close>

datatype align_error = InvalidInput

text \<open>
  \<open>_apply_drift_fix\<close>: the two passes of \<open>zone_realigner\<close>, each a parameter that gives
  the results component of the pair the pass returns. Their arguments are the results,
  the segments, the ayahs, the minimal run length, and (first pass) the quality threshold
  and the buffer in seconds.
\<close>

definition apply_drift_fix ::
  "(AlignmentResult list \<Rightarrow> Segment list \<Rightarrow> Ayah list \<Rightarrow> int \<Rightarrow> real \<Rightarrow> real
      \<Rightarrow> AlignmentResult list)
   \<Rightarrow> (AlignmentResult list \<Rightarrow> Segment list \<Rightarrow> Ayah list \<Rightarrow> int \<Rightarrow> real
      \<Rightarrow> AlignmentResult list)
   \<Rightarrow> Aligner \<Rightarrow> AlignmentResult list \<Rightarrow> Segment list \<Rightarrow> Ayah list
   \<Rightarrow> AlignmentResult list" where
  "apply_drift_fix realign_problem_zones realign_from_anchors self results segments ayahs =
     (let results = realign_problem_zones results segments ayahs 3 (quality_threshold self) 10;
          results = realign_from_anchors results segments ayahs 3 5
      in results)"

text \<open>
  \<open>Aligner.align\<close>. The object's state is passed in and returned. \<open>fix_overlaps_fn\<close>
  stands for \<open>zone_realigner.fix_overlaps\<close>: it gives the list after the in-place fix.
\<close>

definition align ::
  "(nat \<Rightarrow> bool) \<Rightarrow> scorer \<Rightarrow> aligner_fn \<Rightarrow> aligner_fn
   \<Rightarrow> (AlignmentResult list \<Rightarrow> Segment list \<Rightarrow> Ayah list \<Rightarrow> int \<Rightarrow> real \<Rightarrow> real
      \<Rightarrow> AlignmentResult list)
   \<Rightarrow> (AlignmentResult list \<Rightarrow> Segment list \<Rightarrow> Ayah list \<Rightarrow> int \<Rightarrow> real
      \<Rightarrow> AlignmentResult list)
   \<Rightarrow> (AlignmentResult list \<Rightarrow> AlignmentResult list)
   \<Rightarrow> Aligner \<Rightarrow> Segment list \<Rightarrow> Ayah list \<Rightarrow> silences_ms
   \<Rightarrow> (align_error + AlignmentResult list) \<times> Aligner" where
  "align isspace similarity align_segments_dp_with_constraints align_segments_greedy
       realign_problem_zones realign_from_anchors fix_overlaps_fn self segments ayahs silences =
     (if segments = [] \<or> ayahs = [] then (Inr [], self)
      else (let self = self\<lparr>last_stats := None\<rparr>;
                (results, self) =
                  (case strategy self of
                     GREEDY \<Rightarrow> (align_segments_greedy segments ayahs silences, self)
                   | DP \<Rightarrow> (align_segments_dp_with_constraints segments ayahs silences, self)
                   | HYBRID \<Rightarrow>
                       (let (results, stats) =
                              align_segments_hybrid isspace similarity
                                align_segments_dp_with_constraints align_segments_greedy
                                segments ayahs silences (quality_threshold self) 30 30
                        in (results, self\<lparr>last_stats := Some stats\<rparr>)));
                results = (if fix_drift self \<and> results \<noteq> []
                           then apply_drift_fix realign_problem_zones realign_from_anchors
                                  self results segments ayahs
                           else results);
                results = (if fix_overlaps self \<and> results \<noteq> []
                           then fix_overlaps_fn results else results)
            in (Inr results, self)))"


section \<open>Sample collaborators for concrete runs\<close>

text \<open>The code points for which \<open>str.isspace\<close> holds in CPython 3.\<close>

definition unicode_isspace :: "nat \<Rightarrow> bool" where
  "unicode_isspace c =
     (c \<in> set [9, 10, 11, 12, 13, 28, 29, 30, 31, 32, 133, 160, 5760, 8192, 8193, 8194, 8195,
               8196, 8197, 8198, 8199, 8200, 8201, 8202, 8232, 8233, 8239, 8287, 12288])"

fun lcs :: "'a list \<Rightarrow> 'a list \<Rightarrow> nat" where
  "lcs [] ys = 0"
| "lcs (x # xs) [] = 0"
| "lcs (x # xs) (y # ys) =
     (if x = y then Suc (lcs xs ys) else max (lcs (x # xs) ys) (lcs xs (y # ys)))"

text \<open>
  Modelled from the spec: \<open>matcher.similarity\<close>, whose source is not among the files.
  The specification gives it as the ratio \<open>2 * M / (|a| + |b|)\<close> of a
  longest-common-subsequence match of size \<open>M\<close>, applied to text that is already
  normalized.
\<close>

definition spec_similarity :: scorer where
  "spec_similarity a b =
     (if length a + length b = 0 then 1
      else 2 * real (lcs a b) / real (length a + length b))"

text \<open>
  Modelled from the spec: \<open>dp_core.compute_alignment_cost\<close>, whose source is not among the
  files: \<open>cost = 1 - similarity(merged_segment_text, ayah_text)\<close>.
\<close>

definition spec_cost :: scorer where
  "spec_cost merged_text ayah_txt = 1 - spec_similarity merged_text ayah_txt"


text \<open>The sum of the four category counters of the statistics.\<close>

definition counters :: "HybridStats \<Rightarrow> int" where
  "counters st = dp_kept st + old_fallback st + split_improved st + still_low st"



section \<open>Sample inputs\<close>

definition ex_ayah1 :: Ayah where
  "ex_ayah1 = \<lparr> ayah_number = 1, ayah_text = [122, 122] \<rparr>"

definition ex_ayah2 :: Ayah where
  "ex_ayah2 = \<lparr> ayah_number = 2, ayah_text = [97, 98, 32, 99, 100] \<rparr>"

definition ex_seg1 :: Segment where
  "ex_seg1 = \<lparr> seg_start = 0, seg_end = 1, seg_text = [97, 98] \<rparr>"

definition ex_seg2 :: Segment where
  "ex_seg2 = \<lparr> seg_start = 2, seg_end = 3, seg_text = [99, 100] \<rparr>"

definition ex_result :: "Ayah \<Rightarrow> real \<Rightarrow> real \<Rightarrow> real \<Rightarrow> AlignmentResult" where
  "ex_result a t0 t1 score =
     \<lparr> ayah = a, start_time = t0, end_time = t1, transcribed_text = [],
       similarity_score = score, overlap_detected = False \<rparr>"

definition ex_dp :: aligner_fn where
  "ex_dp segments ayahs silences = [ex_result ex_ayah1 0 1 0.9, ex_result ex_ayah2 2 3 0.5]"

definition ex_greedy :: aligner_fn where
  "ex_greedy segments ayahs silences = [ex_result ex_ayah1 0 1 0.95, ex_result ex_ayah2 2 3 0.8]"

definition ex_aligner :: Aligner where
  "ex_aligner = \<lparr> strategy = HYBRID, quality_threshold = 0.85, fix_drift = True,
                   fix_overlaps = True, last_stats = None \<rparr>"



section \<open>Normalizer and overlap removal (\<open>src/align_segments.py\<close>)\<close>

text \<open>
  \<open>re.sub(r"\s+", " ", text)\<close>: every maximal run of whitespace becomes one space. The
  flag says that the previous character belonged to a run that is already replaced.
\<close>

fun sub_whitespace_runs :: "(nat \<Rightarrow> bool) \<Rightarrow> bool \<Rightarrow> str \<Rightarrow> str" where
  "sub_whitespace_runs isspace in_run [] = []"
| "sub_whitespace_runs isspace in_run (c # cs) =
     (if isspace c
      then (if in_run then sub_whitespace_runs isspace True cs
            else 32 # sub_whitespace_runs isspace True cs)
      else c # sub_whitespace_runs isspace False cs)"

definition normalize_arabic :: "(nat \<Rightarrow> bool) \<Rightarrow> (nat \<Rightarrow> bool) \<Rightarrow> str \<Rightarrow> str" where
  "normalize_arabic isword isspace txt =
     (let txt = map (\<lambda>c. if c \<in> {0x623, 0x625, 0x622, 0x627} then 0x627 else c) txt;
          txt = map (\<lambda>c. if c = 0x649 then 0x64A else c) txt;
          txt = map (\<lambda>c. if c = 0x629 then 0x647 else c) txt;
          txt = filter (\<lambda>c. isword c \<or> isspace c) txt;
          txt = sub_whitespace_runs isspace False txt
      in py_strip isspace txt)"

text \<open>No whitespace but single spaces, and no two of them adjacent.\<close>

fun tidy :: "(nat \<Rightarrow> bool) \<Rightarrow> str \<Rightarrow> bool" where
  "tidy isspace [] = True"
| "tidy isspace [c] = (isspace c \<longrightarrow> c = 32)"
| "tidy isspace (c # d # cs) =
     ((isspace c \<longrightarrow> c = 32 \<and> \<not> isspace d) \<and> tidy isspace (d # cs))"

text \<open>
  The class \<open>\w\<close> of Python's \<open>re\<close> on the ASCII and Arabic blocks (code points below 128
  and from U+0600 to U+06FF); the sample inputs use no other code point.
\<close>

definition isword_ascii_arabic :: "nat \<Rightarrow> bool" where
  "isword_ascii_arabic c =
     (48 \<le> c \<and> c \<le> 57 \<or> 65 \<le> c \<and> c \<le> 90 \<or> c = 95 \<or> 97 \<le> c \<and> c \<le> 122 \<or>
      0x620 \<le> c \<and> c \<le> 0x64A \<or> 0x660 \<le> c \<and> c \<le> 0x669 \<or> 0x66E \<le> c \<and> c \<le> 0x66F \<or>
      0x671 \<le> c \<and> c \<le> 0x6D3 \<or> c = 0x6D5 \<or> 0x6E5 \<le> c \<and> c \<le> 0x6E6 \<or>
      0x6EE \<le> c \<and> c \<le> 0x6FC \<or> c = 0x6FF)"

text \<open>\<open>collections.Counter(xs)\<close>; a key that is absent counts 0.\<close>

definition Counter :: "'a list \<Rightarrow> 'a \<Rightarrow> int" where
  "Counter xs = fold (\<lambda>x c. c(x := c x + 1)) xs (\<lambda>_. 0)"

text \<open>The loop of \<open>remove_overlap\<close> over \<open>words2\<close>; the state is \<open>(count1, cleaned_words2)\<close>.\<close>

fun overlap_loop :: "(str \<Rightarrow> str) \<Rightarrow> str list \<Rightarrow> (str \<Rightarrow> int) \<times> str list \<Rightarrow> (str \<Rightarrow> int) \<times> str list" where
  "overlap_loop nrm [] st = st"
| "overlap_loop nrm (word # ws) (count1, cleaned_words2) =
     (if count1 (nrm word) > 0
      then overlap_loop nrm ws (count1(nrm word := count1 (nrm word) - 1), cleaned_words2)
      else overlap_loop nrm ws (count1, cleaned_words2 @ [word]))"

definition remove_overlap :: "(nat \<Rightarrow> bool) \<Rightarrow> (nat \<Rightarrow> bool) \<Rightarrow> str \<Rightarrow> str \<Rightarrow> str \<times> bool" where
  "remove_overlap isword isspace text1 text2 =
     (let words1 = py_split isspace (normalize_arabic isword isspace text1);
          words2 = py_split isspace text2;
          count1 = Counter words1;
          (count1, cleaned_words2) =
             overlap_loop (normalize_arabic isword isspace) words2 (count1, [])
      in if cleaned_words2 = [] then (py_strip isspace text1, True)
         else (py_strip isspace text1 @ SPACE @ py_strip isspace (py_join SPACE cleaned_words2),
               True))"

text \<open>
  The tokens of \<open>ws\<close> that the loop keeps, stated without the loop: the token at position
  \<open>i\<close> is kept when at least \<open>budget t\<close> earlier tokens of \<open>ws\<close> have its normal form \<open>t\<close>.
\<close>

definition kept_tokens :: "(str \<Rightarrow> str) \<Rightarrow> (str \<Rightarrow> int) \<Rightarrow> str list \<Rightarrow> str list" where
  "kept_tokens nrm budget ws =
     map snd (filter (\<lambda>(i, w). budget (nrm w) \<le> int (count_list (map nrm (take i ws)) (nrm w)))
                (enumerate 0 ws))"

definition ex_rabb_alalamin :: str where
  "ex_rabb_alalamin = [1585, 1576, 32, 1575, 1604, 1593, 1575, 1604, 1605, 1610, 1606]"

definition ex_alalamin_alrahman :: str where
  "ex_alalamin_alrahman =
     [1575, 1604, 1593, 1575, 1604, 1605, 1610, 1606, 32, 1575, 1604, 1585, 1581, 1605, 1606]"

definition ex_diacritics :: str where
  "ex_diacritics = [32, 1571, 1614, 1581, 1605, 1583, 32, 32, 1609, 1577, 33]"


section \<open>Properties of the hybrid alignment\<close>

lemma fold_hybrid_step_results:
  "fst (fold (hybrid_step isspace similarity segments silences q lw ld old_by_ayah) xs (acc, st)) =
     acc @ map (\<lambda>dp_r. if similarity_score dp_r \<ge> q then dp_r
                        else fst (choose_best isspace similarity segments silences lw ld old_by_ayah dp_r)) xs"
proof (induction xs arbitrary: acc st)
  case Nil
  then show ?case by simp
next
  case (Cons x xs)
  show ?case
    by (simp add: hybrid_step_def [of _ _ _ _ _ _ _ _ x] Cons.IH split: prod.splits)
qed

lemma hybrid_step_counters:
  "hybrid_step isspace similarity segments silences q lw ld old_by_ayah x (acc, st) = (acc', st')
   \<Longrightarrow> counters st' = counters st + 1 \<and> total_ayahs st' = total_ayahs st \<and> length acc' = length acc + 1"
  by (auto simp: hybrid_step_def counters_def split: prod.splits if_splits)

lemma fold_hybrid_step_counters:
  "fold (hybrid_step isspace similarity segments silences q lw ld old_by_ayah) xs (acc, st) = (acc', st')
   \<Longrightarrow> counters st' = counters st + int (length xs) \<and> total_ayahs st' = total_ayahs st
       \<and> length acc' = length acc + length xs"
proof (induction xs arbitrary: acc st)
  case Nil
  then show ?case by simp
next
  case (Cons x xs)
  obtain a1 s1 where step: "hybrid_step isspace similarity segments silences q lw ld old_by_ayah x (acc, st) = (a1, s1)"
    by (cases "hybrid_step isspace similarity segments silences q lw ld old_by_ayah x (acc, st)")
  from Cons.prems have "fold (hybrid_step isspace similarity segments silences q lw ld old_by_ayah) xs (a1, s1) = (acc', st')"
    by (simp add: step)
  from Cons.IH [OF this] hybrid_step_counters [OF step] show ?case by simp
qed

lemma choose_best_in_candidates:
  "fst (choose_best isspace similarity segments silences lw ld old_by_ayah r)
     \<in> set (candidates isspace similarity segments silences lw ld old_by_ayah r)"
  by (simp add: choose_best_def candidates_def split: option.splits prod.splits)

lemma choose_best_upper_bound:
  "c \<in> set (candidates isspace similarity segments silences lw ld old_by_ayah r) \<Longrightarrow>
   similarity_score c
     \<le> similarity_score (fst (choose_best isspace similarity segments silences lw ld old_by_ayah r))"
  by (auto simp: choose_best_def candidates_def split: option.splits prod.splits if_splits)

text \<open>
  Claim C3. On the path of \<open>align_segments_hybrid\<close> that reaches the loop over the DP
  results (segments, ayahs and DP results all non-empty), one result is emitted per DP
  result. A DP result at or above the quality threshold is emitted unchanged. For one
  below the threshold, the emitted result is one of the candidates that exist (the DP
  result, the split-and-restitch result, the greedy result stored under the ayah's
  number) and its similarity score is the maximum of their scores.
\<close>

theorem hybrid_emits_best_candidate:
  assumes "segments \<noteq> []" and "ayahs \<noteq> []"
    and "dp_results = align_segments_dp_with_constraints segments ayahs silences"
    and "dp_results \<noteq> []"
    and "old_by_ayah = build_old_by_ayah (align_segments_greedy segments ayahs silences)"
    and "out = fst (align_segments_hybrid isspace similarity align_segments_dp_with_constraints
                      align_segments_greedy segments ayahs silences q lw ld)"
    and "cands = candidates isspace similarity segments silences lw ld old_by_ayah"
    and "i < length dp_results"
  shows "length out = length dp_results \<and>
         (similarity_score (dp_results ! i) \<ge> q \<longrightarrow> out ! i = dp_results ! i) \<and>
         (similarity_score (dp_results ! i) < q \<longrightarrow>
            out ! i \<in> set (cands (dp_results ! i)) \<and>
            similarity_score (out ! i) = Max (similarity_score ` set (cands (dp_results ! i))))"
proof -
  let ?pick = "\<lambda>dp_r. if similarity_score dp_r \<ge> q then dp_r
                 else fst (choose_best isspace similarity segments silences lw ld old_by_ayah dp_r)"
  have out: "out = map ?pick dp_results"
    using assms(1-6)
    by (simp add: align_segments_hybrid_def Let_def fold_hybrid_step_results)
  let ?r = "dp_results ! i"
  have picked: "out ! i = ?pick ?r"
    using out assms(8) by simp
  have "similarity_score (fst (choose_best isspace similarity segments silences lw ld old_by_ayah ?r))
          = Max (similarity_score ` set (cands ?r))"
  proof (rule Max_eqI [symmetric])
    show "finite (similarity_score ` set (cands ?r))" by simp
  next
    fix y assume "y \<in> similarity_score ` set (cands ?r)"
    then show "y \<le> similarity_score (fst (choose_best isspace similarity segments silences lw ld old_by_ayah ?r))"
      using choose_best_upper_bound assms(7) by auto
  next
    show "similarity_score (fst (choose_best isspace similarity segments silences lw ld old_by_ayah ?r))
            \<in> similarity_score ` set (cands ?r)"
      using choose_best_in_candidates assms(7) by auto
  qed
  then show ?thesis
    using out picked choose_best_in_candidates assms(7) by auto
qed

text \<open>
  Claim C4, as amended. For every call of \<open>align_segments_hybrid\<close> the four category
  counters sum to the number of results returned, and \<open>total_ayahs\<close> is the number of
  ayahs given; the sum equals \<open>total_ayahs\<close> exactly when one result is returned per ayah.
\<close>

theorem hybrid_stats_count_results:
  "(case align_segments_hybrid isspace similarity align_segments_dp_with_constraints
           align_segments_greedy segments ayahs silences q lw ld of
      (results, stats) \<Rightarrow>
        dp_kept stats + old_fallback stats + split_improved stats + still_low stats
          = int (length results)
        \<and> total_ayahs stats = int (length ayahs))"
proof -
  let ?f = "hybrid_step isspace similarity segments silences q lw ld
              (build_old_by_ayah (align_segments_greedy segments ayahs silences))"
  let ?s0 = "\<lparr> total_ayahs = int (length ayahs), dp_kept = 0, old_fallback = 0,
                     split_improved = 0, still_low = 0 \<rparr>"
  let ?dp = "align_segments_dp_with_constraints segments ayahs silences"
  obtain acc' st' where f: "fold ?f ?dp ([], ?s0) = (acc', st')"
    by (cases "fold ?f ?dp ([], ?s0)")
  from fold_hybrid_step_counters [OF f]
  have "counters st' = int (length acc') \<and> total_ayahs st' = int (length ayahs)"
    by (simp add: counters_def)
  then show ?thesis
    using f by (simp add: align_segments_hybrid_def Let_def counters_def)
qed


text \<open>
  Claim C8, as amended. Called with an empty ayah list, \<open>Aligner.align\<close> returns the
  empty result list at once: no error is raised, no partial result is returned and the
  aligner's state is unchanged.
\<close>

theorem align_empty_ayahs_returns_empty:
  "ayahs = [] \<Longrightarrow>
   align isspace similarity align_segments_dp_with_constraints align_segments_greedy
     realign_problem_zones realign_from_anchors fix_overlaps_fn self segments ayahs silences
   = (Inr [], self)"
  by (simp add: align_def)

lemmas ex_defs = ex_ayah1_def ex_ayah2_def ex_seg1_def ex_seg2_def ex_result_def ex_dp_def ex_greedy_def






text \<open>
  Claim C4 as stated fails for an empty segment list: two ayahs are counted in
  \<open>total_ayahs\<close> and no category counter is incremented.
\<close>

theorem hybrid_stats_not_total:
  "snd (align_segments_hybrid unicode_isspace spec_similarity ex_dp ex_greedy
          [] [ex_ayah1, ex_ayah2] None 0.85 30 30)
   = \<lparr> total_ayahs = 2, dp_kept = 0, old_fallback = 0, split_improved = 0, still_low = 0 \<rparr>"
  by (simp add: align_segments_hybrid_def)

text \<open>
  Claim C8 as stated fails: with two segments and no ayah, \<open>align\<close> returns normally with
  the empty list, not with \<open>InvalidInput\<close>.
\<close>

theorem align_empty_ayahs_no_error:
  "align unicode_isspace spec_similarity ex_dp ex_greedy (\<lambda>rs segs ays n q b. rs)
     (\<lambda>rs segs ays n b. rs) (\<lambda>rs. rs) ex_aligner [ex_seg1, ex_seg2] [] None
   = (Inr [], ex_aligner)"
  by (simp add: align_def)

text \<open>A call of \<open>align\<close> with an empty ayah list (claim C8).\<close>

theorem align_empty_ayahs_returns_empty_witness:
  "([]::Ayah list) = [] \<and>
   align unicode_isspace spec_similarity ex_dp ex_greedy (\<lambda>rs segs ays n q b. rs)
     (\<lambda>rs segs ays n b. rs) (\<lambda>rs. rs) ex_aligner [ex_seg1] [] (Some [(0, 500)])
   = (Inr [], ex_aligner)"
  using align_empty_ayahs_returns_empty [of "[]" unicode_isspace spec_similarity ex_dp ex_greedy
     "\<lambda>rs segs ays n q b. rs" "\<lambda>rs segs ays n b. rs" "\<lambda>rs. rs" ex_aligner "[ex_seg1]" "Some [(0, 500)]"]
  by simp

text \<open>
  A run of the hybrid loop (claim C3): the second DP result scores 0.5, below the
  threshold 0.85, and the greedy result for the same ayah, with score 0.8, is emitted.
\<close>

theorem hybrid_emits_best_candidate_witness:
  "length (fst (align_segments_hybrid unicode_isspace spec_similarity ex_dp ex_greedy
                  [ex_seg1, ex_seg2] [ex_ayah1, ex_ayah2] None 0.85 30 30)) = 2
   \<and> similarity_score (ex_dp [ex_seg1, ex_seg2] [ex_ayah1, ex_ayah2] None ! 1) < 0.85
   \<and> similarity_score (fst (align_segments_hybrid unicode_isspace spec_similarity ex_dp ex_greedy
                  [ex_seg1, ex_seg2] [ex_ayah1, ex_ayah2] None 0.85 30 30) ! 1) = 0.8"
proof -
  let ?segs = "[ex_seg1, ex_seg2]" and ?ayahs = "[ex_ayah1, ex_ayah2]"
  let ?old = "build_old_by_ayah (ex_greedy ?segs ?ayahs None)"
  have low: "similarity_score (ex_dp ?segs ?ayahs None ! 1) < 0.85"
    by (simp add: ex_defs)
  have cands: "similarity_score ` set (candidates unicode_isspace spec_similarity ?segs None 30 30 ?old
                 (ex_dp ?segs ?ayahs None ! 1)) = {0.5, 0.8}"
    by (simp add: candidates_def split_candidate_def try_split_and_restitch_def
          build_old_by_ayah_def ex_defs)
  have "Max {0.5, 0.8 :: real} = 0.8" by simp
  with hybrid_emits_best_candidate [of ?segs ?ayahs "ex_dp ?segs ?ayahs None" ex_dp None
      ?old ex_greedy _ unicode_isspace spec_similarity "0.85" 30 30 _ 1, OF _ _ refl _ refl refl refl]
    low cands
  show ?thesis by (simp add: ex_dp_def)
qed


section \<open>Properties of the normalizer and of the overlap removal\<close>

lemma tidy_sub_whitespace_runs:
  assumes "isspace 32"
  shows "tidy isspace (sub_whitespace_runs isspace False cs)"
    and "tidy isspace (32 # sub_whitespace_runs isspace True cs)"
  using assms
proof (induction cs)
  case Nil
  { case 1 show ?case by simp }
  { case 2 show ?case by simp }
next
  case (Cons c cs)
  { case 1
    show ?case
    proof (cases "isspace c")
      case True
      then show ?thesis using Cons.IH(2) 1 by simp
    next
      case False
      then show ?thesis using Cons.IH(1) 1
        by (cases "sub_whitespace_runs isspace False cs") auto
    qed }
  { case 2
    show ?case
    proof (cases "isspace c")
      case True
      then show ?thesis using Cons.IH(2) 2 by simp
    next
      case False
      then show ?thesis using Cons.IH(1) 2
        by (cases "sub_whitespace_runs isspace False cs") auto
    qed }
qed

lemma sub_whitespace_runs_tidy:
  "tidy isspace s \<Longrightarrow> sub_whitespace_runs isspace False s = s"
proof (induction isspace s rule: tidy.induct)
  case (1 isspace)
  then show ?case by simp
next
  case (2 isspace c)
  then show ?case by simp
next
  case (3 isspace c d cs)
  then show ?case by auto
qed

lemma tidy_tl: "tidy isspace (c # cs) \<Longrightarrow> tidy isspace cs"
  by (cases cs) auto

lemma tidy_dropWhile: "tidy isspace s \<Longrightarrow> tidy isspace (dropWhile P s)"
  by (induction s) (auto dest: tidy_tl)

lemma tidy_take: "tidy isspace s \<Longrightarrow> tidy isspace (take n s)"
proof (induction isspace s arbitrary: n rule: tidy.induct)
  case (1 isspace)
  then show ?case by simp
next
  case (2 isspace c)
  then show ?case by (cases n) auto
next
  case (3 isspace c d cs)
  show ?case
  proof (cases n)
    case 0
    then show ?thesis by simp
  next
    case (Suc m)
    with 3(1) [of m] 3(2) show ?thesis by (cases m) auto
  qed
qed

lemma rstrip_take: "rev (dropWhile P (rev s)) = take (length s - length (takeWhile P (rev s))) s"
  by (simp add: dropWhile_eq_drop rev_drop)

lemma tidy_py_strip: "tidy isspace s \<Longrightarrow> tidy isspace (py_strip isspace s)"
  unfolding py_strip_def rstrip_take by (intro tidy_take tidy_dropWhile)

lemma py_strip_ends:
  "py_strip isspace s = [] \<or>
   (\<not> isspace (hd (py_strip isspace s)) \<and> \<not> isspace (last (py_strip isspace s)))"
proof -
  let ?l = "dropWhile isspace s"
  let ?r = "rev (dropWhile isspace (rev ?l))"
  have r: "py_strip isspace s = ?r" by (simp add: py_strip_def)
  show ?thesis
  proof (cases "?r = []")
    case True
    then show ?thesis using r by simp
  next
    case False
    then have ne: "dropWhile isspace (rev ?l) \<noteq> []" by simp
    then have last: "\<not> isspace (last ?r)"
      using hd_dropWhile [OF ne] by (simp add: last_rev)
    have lne: "?l \<noteq> []"
    proof
      assume a: "?l = []"
      have "?r = []" unfolding a by simp
      with False show False by blast
    qed
    then have hdl: "\<not> isspace (hd ?l)" by (rule hd_dropWhile)
    have "?r = take (length ?l - length (takeWhile isspace (rev ?l))) ?l"
      by (rule rstrip_take)
    with False have "hd ?r = hd ?l"
      by (metis hd_take gr0I take_eq_Nil)
    with hdl last r show ?thesis by simp
  qed
qed

lemma py_strip_fixed:
  assumes "s = [] \<or> (\<not> isspace (hd s) \<and> \<not> isspace (last s))"
  shows "py_strip isspace s = s"
proof (cases "s = []")
  case True
  then show ?thesis by (simp add: py_strip_def)
next
  case False
  with assms have h: "\<not> isspace (hd s)" and l: "\<not> isspace (last s)" by auto
  from False h have "dropWhile isspace s = s" by (cases s) auto
  moreover have rs: "rev s = last s # rev (butlast s)"
    using False by (metis append_butlast_last_id rev.simps(2) rev_append rev_rev_ident append_Cons append_Nil rev_singleton_conv)
  have "dropWhile isspace (last s # rev (butlast s)) = last s # rev (butlast s)"
    using l by simp
  then have "dropWhile isspace (rev s) = rev s"
    by (simp only: rs)
  ultimately show ?thesis by (simp add: py_strip_def)
qed

lemma py_strip_idem: "py_strip isspace (py_strip isspace s) = py_strip isspace s"
  by (rule py_strip_fixed) (rule py_strip_ends)

lemma set_sub_whitespace_runs:
  "set (sub_whitespace_runs isspace f s) \<subseteq> insert 32 (set s)"
  by (induction s arbitrary: f) auto

lemma set_py_strip: "set (py_strip isspace s) \<subseteq> set s"
  unfolding py_strip_def rstrip_take
  by (meson set_take_subset set_dropWhileD subsetI subset_trans)

lemma mapped_chars:
  "c \<in> set (map (\<lambda>c. if c = 0x629 then 0x647 else c)
              (map (\<lambda>c. if c = 0x649 then 0x64A else c)
                (map (\<lambda>c. if c \<in> {0x623, 0x625, 0x622, 0x627} then 0x627 else c) x)))
   \<Longrightarrow> c \<noteq> 0x623 \<and> c \<noteq> 0x625 \<and> c \<noteq> 0x622 \<and> c \<noteq> 0x649 \<and> c \<noteq> (0x629::nat)"
proof -
  assume "c \<in> set (map (\<lambda>c. if c = 0x629 then 0x647 else c)
              (map (\<lambda>c. if c = 0x649 then 0x64A else c)
                (map (\<lambda>c. if c \<in> {0x623, 0x625, 0x622, 0x627} then 0x627 else c) x)))"
  then obtain d where
    "c = (if (if (if d \<in> {0x623, 0x625, 0x622, 0x627} then 0x627 else d) = 0x649 then 0x64A
              else (if d \<in> {0x623, 0x625, 0x622, 0x627} then 0x627 else d)) = 0x629 then 0x647
          else (if (if d \<in> {0x623, 0x625, 0x622, 0x627} then 0x627 else d) = 0x649 then 0x64A
              else (if d \<in> {0x623, 0x625, 0x622, 0x627} then 0x627 else d)))"
    by (auto simp only: set_map image_iff)
  then show ?thesis
    by (simp split: if_splits)
qed

lemma normalize_arabic_unfold:
  "normalize_arabic isword isspace x =
     py_strip isspace (sub_whitespace_runs isspace False
       (filter (\<lambda>c. isword c \<or> isspace c)
         (map (\<lambda>c. if c = 0x629 then 0x647 else c)
           (map (\<lambda>c. if c = 0x649 then 0x64A else c)
             (map (\<lambda>c. if c \<in> {0x623, 0x625, 0x622, 0x627} then 0x627 else c) x)))))"
  unfolding normalize_arabic_def Let_def by (rule refl)

lemma normalize_arabic_tidy:
  "isspace 32 \<Longrightarrow> tidy isspace (normalize_arabic isword isspace x)"
  unfolding normalize_arabic_unfold
  by (intro tidy_py_strip tidy_sub_whitespace_runs)

lemma normalize_arabic_ends:
  "normalize_arabic isword isspace x = [] \<or>
   (\<not> isspace (hd (normalize_arabic isword isspace x)) \<and>
    \<not> isspace (last (normalize_arabic isword isspace x)))"
  unfolding normalize_arabic_unfold by (rule py_strip_ends)

lemma normalize_arabic_chars:
  assumes ex_isspace_facts: "isspace 32" and c: "c \<in> set (normalize_arabic isword isspace x)"
  shows "(isword c \<or> isspace c) \<and> c \<noteq> 0x623 \<and> c \<noteq> 0x625 \<and> c \<noteq> 0x622 \<and> c \<noteq> 0x649 \<and> c \<noteq> 0x629"
proof -
  let ?m = "map (\<lambda>c. if c = 0x629 then 0x647 else c)
              (map (\<lambda>c. if c = 0x649 then 0x64A else c)
                (map (\<lambda>c. if c \<in> {0x623, 0x625, 0x622, 0x627} then 0x627 else c) x))"
  let ?f = "filter (\<lambda>c. isword c \<or> isspace c) ?m"
  from c have "c \<in> set (py_strip isspace (sub_whitespace_runs isspace False ?f))"
    by (simp only: normalize_arabic_unfold)
  then have "c \<in> set (sub_whitespace_runs isspace False ?f)"
    using set_py_strip by blast
  then have "c = 32 \<or> c \<in> set ?f"
    using set_sub_whitespace_runs by blast
  then show ?thesis
  proof
    assume "c = 32"
    with ex_isspace_facts show ?thesis by simp
  next
    assume "c \<in> set ?f"
    then have w: "isword c \<or> isspace c" and m: "c \<in> set ?m"
      by (simp_all only: set_filter mem_Collect_eq)
    from mapped_chars [OF m] w show ?thesis by blast
  qed
qed

text \<open>
  Claim C7. \<open>normalize_arabic\<close> is idempotent, for every classification of characters
  into word characters and whitespace in which the space character U+0020 is whitespace
  (as it is in Python's tables).
\<close>

theorem normalize_arabic_idempotent:
  assumes "isspace 32"
  shows "normalize_arabic isword isspace (normalize_arabic isword isspace x)
           = normalize_arabic isword isspace x"
proof -
  let ?r = "normalize_arabic isword isspace x"
  note chars = normalize_arabic_chars [of isspace _ isword x, OF assms]
  have m1: "map (\<lambda>c. if c \<in> {0x623, 0x625, 0x622, 0x627} then 0x627 else c) ?r = ?r"
  proof (rule map_idI)
    fix c assume "c \<in> set ?r"
    from chars [OF this] show "(if c \<in> {0x623, 0x625, 0x622, 0x627} then 0x627 else c) = c"
      by simp
  qed
  have m2: "map (\<lambda>c. if c = 0x649 then 0x64A else c) ?r = ?r"
  proof (rule map_idI)
    fix c assume "c \<in> set ?r"
    from chars [OF this] show "(if c = 0x649 then 0x64A else c) = c"
      by simp
  qed
  have m3: "map (\<lambda>c. if c = 0x629 then 0x647 else c) ?r = ?r"
  proof (rule map_idI)
    fix c assume "c \<in> set ?r"
    from chars [OF this] show "(if c = 0x629 then 0x647 else c) = c"
      by simp
  qed
  have f: "filter (\<lambda>c. isword c \<or> isspace c) ?r = ?r"
  proof (rule filter_True)
    show "\<forall>c \<in> set ?r. isword c \<or> isspace c"
      using chars by blast
  qed
  have s: "sub_whitespace_runs isspace False ?r = ?r"
    using normalize_arabic_tidy [of isspace isword x, OF assms] by (rule sub_whitespace_runs_tidy)
  have p: "py_strip isspace ?r = ?r"
    using normalize_arabic_ends by (rule py_strip_fixed)
  show ?thesis
    by (subst normalize_arabic_unfold) (simp only: m1 m2 m3 f s p)
qed

lemma Counter_count_list: "Counter xs x = int (count_list xs x)"
proof -
  have "fold (\<lambda>x c. c(x := c x + 1)) xs c0 x = c0 x + int (count_list xs x)" for c0 :: "'a \<Rightarrow> int"
    by (induction xs arbitrary: c0) auto
  then show ?thesis by (simp add: Counter_def)
qed

lemma kept_tokens_Cons:
  "kept_tokens nrm budget (w # ws) =
     (if budget (nrm w) \<le> 0 then [w] else [])
     @ kept_tokens nrm (\<lambda>t. if t = nrm w then budget t - 1 else budget t) ws"
proof -
  have e: "enumerate 0 (w # ws) = (0, w) # map (\<lambda>(i, v). (Suc i, v)) (enumerate 0 ws)"
    by (simp add: enumerate_Suc_eq apfst_def map_prod_def case_prod_unfold)
  show ?thesis
    unfolding kept_tokens_def e
    by (auto simp: filter_map o_def case_prod_unfold intro!: filter_cong arg_cong [where f = "map snd"])
qed

lemma overlap_loop_kept:
  "snd (overlap_loop nrm ws (count1, acc)) = acc @ kept_tokens nrm count1 ws"
proof (induction ws arbitrary: count1 acc)
  case Nil
  then show ?case by (simp add: kept_tokens_def)
next
  case (Cons w ws)
  have upd: "count1(nrm w := count1 (nrm w) - 1) = (\<lambda>t. if t = nrm w then count1 t - 1 else count1 t)"
    by auto
  show ?case
  proof (cases "count1 (nrm w) > 0")
    case True
    then show ?thesis
      using Cons.IH [of "count1(nrm w := count1 (nrm w) - 1)" acc]
      by (simp add: kept_tokens_Cons upd)
  next
    case False
    have same: "kept_tokens nrm (\<lambda>t. if t = nrm w then count1 t - 1 else count1 t) ws
                = kept_tokens nrm count1 ws"
      unfolding kept_tokens_def using False
      by (intro arg_cong [where f = "map snd"] filter_cong) (auto split: prod.splits)
    from False show ?thesis
      using Cons.IH [of count1 "acc @ [w]"] by (simp add: kept_tokens_Cons same)
  qed
qed

lemma kept_tokens_count:
  "int (count_list (map nrm (kept_tokens nrm budget ws)) t)
     = max 0 (int (count_list (map nrm ws) t) - max 0 (budget t))"
proof (induction ws arbitrary: budget)
  case Nil
  then show ?case by (simp add: kept_tokens_def)
next
  case (Cons w ws)
  show ?case
    by (auto simp add: kept_tokens_Cons Cons.IH max_def)
qed

text \<open>
  Claim C5, as amended. \<open>remove_overlap\<close> returns the stripped \<open>text1\<close> followed by the
  kept tokens of \<open>text2\<close> in their order, and the flag \<open>True\<close>. A token of \<open>text2\<close> is
  dropped, wherever it stands, exactly when fewer earlier tokens of \<open>text2\<close> share its
  normal form than \<open>text1\<close> has normalized tokens equal to it (wherever those stand); so
  for every normal form the number of kept tokens is the number in \<open>text2\<close> minus the
  number in \<open>text1\<close>, or 0.
\<close>

theorem remove_overlap_drops_matched_tokens:
  "remove_overlap isword isspace text1 text2 =
     (let nrm = normalize_arabic isword isspace;
          words1 = py_split isspace (nrm text1);
          words2 = py_split isspace text2;
          kept = kept_tokens nrm (\<lambda>t. int (count_list words1 t)) words2
      in (if kept = [] then py_strip isspace text1
          else py_strip isspace text1 @ SPACE @ py_strip isspace (py_join SPACE kept), True))
   \<and> (\<forall>t. count_list (map (normalize_arabic isword isspace)
                  (kept_tokens (normalize_arabic isword isspace)
                     (\<lambda>t. int (count_list (py_split isspace (normalize_arabic isword isspace text1)) t))
                     (py_split isspace text2))) t
            = count_list (map (normalize_arabic isword isspace) (py_split isspace text2)) t
              - count_list (py_split isspace (normalize_arabic isword isspace text1)) t)"
proof (rule conjI)
  let ?nrm = "normalize_arabic isword isspace"
  let ?w1 = "py_split isspace (?nrm text1)"
  let ?w2 = "py_split isspace text2"
  have c: "Counter ?w1 = (\<lambda>t. int (count_list ?w1 t))"
    by (rule ext) (rule Counter_count_list)
  obtain cnt kept where ol: "overlap_loop ?nrm ?w2 (Counter ?w1, []) = (cnt, kept)"
    by (cases "overlap_loop ?nrm ?w2 (Counter ?w1, [])")
  have "snd (overlap_loop ?nrm ?w2 (Counter ?w1, [])) = kept_tokens ?nrm (\<lambda>t. int (count_list ?w1 t)) ?w2"
    by (simp add: overlap_loop_kept c)
  with ol have k: "kept = kept_tokens ?nrm (\<lambda>t. int (count_list ?w1 t)) ?w2"
    by simp
  from ol show "remove_overlap isword isspace text1 text2 =
     (let nrm = normalize_arabic isword isspace;
          words1 = py_split isspace (nrm text1);
          words2 = py_split isspace text2;
          kept = kept_tokens nrm (\<lambda>t. int (count_list words1 t)) words2
      in (if kept = [] then py_strip isspace text1
          else py_strip isspace text1 @ SPACE @ py_strip isspace (py_join SPACE kept), True))"
    by (simp add: remove_overlap_def Let_def k)
next
  show "\<forall>t. count_list (map (normalize_arabic isword isspace)
                  (kept_tokens (normalize_arabic isword isspace)
                     (\<lambda>t. int (count_list (py_split isspace (normalize_arabic isword isspace text1)) t))
                     (py_split isspace text2))) t
            = count_list (map (normalize_arabic isword isspace) (py_split isspace text2)) t
              - count_list (py_split isspace (normalize_arabic isword isspace text1)) t"
  proof
    fix t
    let ?nrm = "normalize_arabic isword isspace"
    let ?w1 = "py_split isspace (?nrm text1)"
    let ?w2 = "py_split isspace text2"
    from kept_tokens_count [of ?nrm "\<lambda>t. int (count_list ?w1 t)" ?w2 t]
    show "count_list (map ?nrm (kept_tokens ?nrm (\<lambda>t. int (count_list ?w1 t)) ?w2)) t
            = count_list (map ?nrm ?w2) t - count_list ?w1 t"
      by linarith
  qed
qed

lemma ex_isspace_facts: "unicode_isspace 32" "\<not> unicode_isspace 120" "\<not> unicode_isspace 121" "\<not> unicode_isspace 122"
  by (simp_all add: unicode_isspace_def)

lemma ex_isword_facts: "isword_ascii_arabic 120" "isword_ascii_arabic 121" "isword_ascii_arabic 122"
  by (simp_all add: isword_ascii_arabic_def)

lemma ex_norm_xy: "normalize_arabic isword_ascii_arabic unicode_isspace [120, 32, 121] = [120, 32, 121]"
  by (simp add: normalize_arabic_unfold py_strip_def ex_isspace_facts ex_isword_facts)

lemma ex_norm_x: "normalize_arabic isword_ascii_arabic unicode_isspace [120] = [120]"
  by (simp add: normalize_arabic_unfold py_strip_def ex_isspace_facts ex_isword_facts)

lemma ex_norm_z: "normalize_arabic isword_ascii_arabic unicode_isspace [122] = [122]"
  by (simp add: normalize_arabic_unfold py_strip_def ex_isspace_facts ex_isword_facts)

lemma ex_split_xy: "py_split unicode_isspace [120, 32, 121] = [[120], [121]]"
  by (simp add: py_split_def ex_isspace_facts)

lemma ex_split_zx: "py_split unicode_isspace [122, 32, 120] = [[122], [120]]"
  by (simp add: py_split_def ex_isspace_facts)

lemma ex_loop:
  "overlap_loop (normalize_arabic isword_ascii_arabic unicode_isspace) [[122], [120]]
     (Counter [[120], [121]], []) = ((Counter [[120], [121]])([120] := 0), [[122]])"
  by (simp add: ex_norm_x ex_norm_z Counter_count_list)

text \<open>
  Claim C5 as stated fails: merging "z x" into "x y" drops the second token of "z x",
  which matches the first token of "x y". The kept tokens are not what is left of the
  token list after removing a prefix.
\<close>

theorem remove_overlap_drops_inner_token:
  "remove_overlap isword_ascii_arabic unicode_isspace [120, 32, 121] [122, 32, 120]
     = ([120, 32, 121, 32, 122], True)
   \<and> py_split unicode_isspace [122, 32, 120] = [[122], [120]]
   \<and> snd (overlap_loop (normalize_arabic isword_ascii_arabic unicode_isspace)
            (py_split unicode_isspace [122, 32, 120])
            (Counter (py_split unicode_isspace
               (normalize_arabic isword_ascii_arabic unicode_isspace [120, 32, 121])), []))
       = [[122]]
   \<and> \<not> (\<exists>k. [[122]] = drop k [[122], [120::nat]])"
proof (intro conjI)
  show "remove_overlap isword_ascii_arabic unicode_isspace [120, 32, 121] [122, 32, 120]
     = ([120, 32, 121, 32, 122], True)"
    by (simp add: remove_overlap_def ex_norm_xy ex_split_xy ex_split_zx ex_loop py_strip_def ex_isspace_facts
          SPACE_def Let_def del: overlap_loop.simps)
  show "py_split unicode_isspace [122, 32, 120] = [[122], [120]]"
    by (rule ex_split_zx)
  show "snd (overlap_loop (normalize_arabic isword_ascii_arabic unicode_isspace)
            (py_split unicode_isspace [122, 32, 120])
            (Counter (py_split unicode_isspace
               (normalize_arabic isword_ascii_arabic unicode_isspace [120, 32, 121])), []))
       = [[122]]"
    by (simp add: ex_norm_xy ex_split_xy ex_split_zx ex_loop del: overlap_loop.simps)
  show "\<not> (\<exists>k. [[122]] = drop k [[122], [120::nat]])"
  proof
    assume "\<exists>k. [[122]] = drop k [[122], [120::nat]]"
    then obtain k where k: "[[122]] = drop k [[122], [120::nat]]" ..
    then have "length (drop k [[122], [120::nat]]) = 1" by (metis length_Cons list.size(3) One_nat_def)
    then have "k = 1" by simp
    with k show False by simp
  qed
qed

lemma ex_normalize_diacritics:
  "normalize_arabic isword_ascii_arabic unicode_isspace ex_diacritics
     = [1575, 1581, 1605, 1583, 32, 1610, 1607]"
  by (simp add: normalize_arabic_unfold py_strip_def unicode_isspace_def isword_ascii_arabic_def
        ex_diacritics_def)

text \<open>
  A run of the normalizer (claim C7): hamza-alef, alef maqsura and ta marbuta are mapped,
  the fatha and the exclamation mark are stripped, whitespace is collapsed and trimmed,
  and the result is a fixed point.
\<close>

theorem normalize_arabic_idempotent_witness:
  "unicode_isspace 32
   \<and> normalize_arabic isword_ascii_arabic unicode_isspace ex_diacritics
       = [1575, 1581, 1605, 1583, 32, 1610, 1607]
   \<and> normalize_arabic isword_ascii_arabic unicode_isspace [1575, 1581, 1605, 1583, 32, 1610, 1607]
       = [1575, 1581, 1605, 1583, 32, 1610, 1607]"
proof -
  have s: "unicode_isspace 32" by (simp add: unicode_isspace_def)
  from normalize_arabic_idempotent [of unicode_isspace isword_ascii_arabic ex_diacritics, OF s]
  show ?thesis using s by (simp add: ex_normalize_diacritics)
qed

lemma ex_words1:
  "py_split unicode_isspace (normalize_arabic isword_ascii_arabic unicode_isspace ex_rabb_alalamin)
     = [[1585, 1576], [1575, 1604, 1593, 1575, 1604, 1605, 1610, 1606]]"
  by (simp add: normalize_arabic_unfold py_strip_def py_split_def unicode_isspace_def
        isword_ascii_arabic_def ex_rabb_alalamin_def)

lemma ex_words2:
  "py_split unicode_isspace ex_alalamin_alrahman
     = [[1575, 1604, 1593, 1575, 1604, 1605, 1610, 1606], [1575, 1604, 1585, 1581, 1605, 1606]]"
  by (simp add: py_split_def unicode_isspace_def ex_alalamin_alrahman_def)

lemma ex_norm_words2:
  "normalize_arabic isword_ascii_arabic unicode_isspace [1575, 1604, 1593, 1575, 1604, 1605, 1610, 1606]
     = [1575, 1604, 1593, 1575, 1604, 1605, 1610, 1606]"
  "normalize_arabic isword_ascii_arabic unicode_isspace [1575, 1604, 1585, 1581, 1605, 1606]
     = [1575, 1604, 1585, 1581, 1605, 1606]"
  by (simp_all add: normalize_arabic_unfold py_strip_def unicode_isspace_def isword_ascii_arabic_def)

lemma ex_kept:
  "kept_tokens (normalize_arabic isword_ascii_arabic unicode_isspace)
     (\<lambda>t. int (count_list [[1585, 1576], [1575, 1604, 1593, 1575, 1604, 1605, 1610, 1606]] t))
     [[1575, 1604, 1593, 1575, 1604, 1605, 1610, 1606], [1575, 1604, 1585, 1581, 1605, 1606]]
   = [[1575, 1604, 1585, 1581, 1605, 1606]]"
  by (simp add: kept_tokens_Cons ex_norm_words2 kept_tokens_def)

text \<open>
  The overlap scenario of the specification (claim C5): merging "al-alamin ar-rahman"
  into "rabb al-alamin" drops the duplicated word once.
\<close>

theorem remove_overlap_drops_matched_tokens_witness:
  "remove_overlap isword_ascii_arabic unicode_isspace ex_rabb_alalamin ex_alalamin_alrahman
     = (ex_rabb_alalamin @ [32, 1575, 1604, 1585, 1581, 1605, 1606], True)"
proof -
  have strip1: "py_strip unicode_isspace ex_rabb_alalamin = ex_rabb_alalamin"
    by (simp add: py_strip_def unicode_isspace_def ex_rabb_alalamin_def)
  have strip2: "py_strip unicode_isspace [1575, 1604, 1585, 1581, 1605, 1606]
                  = [1575, 1604, 1585, 1581, 1605, 1606]"
    by (simp add: py_strip_def unicode_isspace_def)
  from remove_overlap_drops_matched_tokens
         [of isword_ascii_arabic unicode_isspace ex_rabb_alalamin ex_alalamin_alrahman]
  have "remove_overlap isword_ascii_arabic unicode_isspace ex_rabb_alalamin ex_alalamin_alrahman
     = (let nrm = normalize_arabic isword_ascii_arabic unicode_isspace;
          words1 = py_split unicode_isspace (nrm ex_rabb_alalamin);
          words2 = py_split unicode_isspace ex_alalamin_alrahman;
          kept = kept_tokens nrm (\<lambda>t. int (count_list words1 t)) words2
      in (if kept = [] then py_strip unicode_isspace ex_rabb_alalamin
          else py_strip unicode_isspace ex_rabb_alalamin @ SPACE
               @ py_strip unicode_isspace (py_join SPACE kept), True))"
    by (rule conjunct1)
  then show ?thesis
    unfolding Let_def ex_words1 ex_words2 ex_kept
    by (simp add: strip1 strip2 SPACE_def)
qed


end
